theory Spec2Isabelle
  imports Complex_Main
begin

section \<open>Values of the Python program\<close>

text \<open>
  A Python float: a finite real, an infinity or NaN. Only comparison with \<open>==\<close> and
  \<open>np.isnan\<close> are used by the voxset code, and both are determined by this view.
\<close>

datatype pyfloat = Fin real | PInf | NInf | NaN

text \<open>Python's \<open>==\<close> on floats: NaN is equal to nothing, itself included.\<close>

fun float_eq :: "pyfloat \<Rightarrow> pyfloat \<Rightarrow> bool" where
  "float_eq (Fin a) (Fin b) = (a = b)"
| "float_eq PInf PInf = True"
| "float_eq NInf NInf = True"
| "float_eq _ _ = False"

text \<open>\<open>a != b\<close> where \<open>a\<close> may be \<open>None\<close> and \<open>b\<close> is a float: \<open>None\<close> differs from every float.\<close>

fun ne_float :: "pyfloat option \<Rightarrow> pyfloat \<Rightarrow> bool" where
  "ne_float None b = True"
| "ne_float (Some a) b = (\<not> float_eq a b)"

text \<open>An element of a numpy array: integer or floating, by the array's dtype.\<close>

datatype scalar = I int | F pyfloat

datatype np_array = IntArr "int list" | FloatArr "pyfloat list"

text \<open>
  The value type of a voxset, as the numpy dtype that \<open>gxu.dtype_gx\<close> gives for the GX
  type of the storage: a signed or unsigned integer width, or a single or double float.
\<close>

datatype dtype =
    Int8 | UInt8 | Int16 | UInt16 | Int32 | UInt32 | Int64 | UInt64 | Float32 | Float64

fun is_float_dtype :: "dtype \<Rightarrow> bool" where
  "is_float_dtype Float32 = True"
| "is_float_dtype Float64 = True"
| "is_float_dtype _ = False"

text \<open>
  The exceptions that the voxset code can let escape. \<open>VoxsetException\<close> is the class
  declared in the module; the others are raised by Python, numpy and the GX API.
\<close>

datatype error =
    VoxsetException
  | IndexError
  | TypeError
  | ZeroDivisionError
  | AttributeError
  | ValueError
  | OverflowError
  | GXAPIError
  | StopIteration

text \<open>
  The constants and helpers of \<open>geosoft.gxapi\<close>, \<open>gxu\<close>, \<open>os.path\<close> and \<open>str\<close> that the
  module uses and that are declared elsewhere: they are parameters of the model.
  \<open>gx_dummy\<close> is the table of the GX dummy of each value type (\<open>GS_S4DM\<close> for 32-bit
  and \<open>GS_S8DM\<close> for 64-bit integers in the tests of \<open>vv\<close>); the voxset code does not
  consult it.
\<close>

record 'm gxenv =
  rDUMMY :: pyfloat
  iDUMMY :: int
  gx_dummy :: "dtype \<Rightarrow> scalar"
  xml_from_dict :: "'m option \<Rightarrow> string"
  splitext :: "string \<Rightarrow> string \<times> string"
  basename :: "string \<Rightarrow> string"
  relpath :: "string \<Rightarrow> string"
  lower :: "string \<Rightarrow> string"

text \<open>
  The storage handle (\<open>gxapi.GXVOX\<close>) as the narrow interface the voxset uses:
  \<open>get_info\<close>, \<open>get_simple_location\<close>, \<open>get_location_points\<close>, \<open>get_ipj\<close> and the
  rows that a pager made by \<open>create_pg\<close> reads (\<open>None\<close>: the API refuses the read).
\<close>

record gxvox =
  info_dtype :: dtype
  info_is_int :: bool
  info_nx :: int
  info_ny :: int
  info_nz :: int
  simple_location :: "pyfloat \<times> pyfloat \<times> pyfloat \<times> pyfloat \<times> pyfloat \<times> pyfloat"
  location_points :: "pyfloat list \<times> pyfloat list \<times> pyfloat list"
  ipj :: nat
  rows :: "int \<Rightarrow> int \<Rightarrow> np_array option"

section \<open>The Voxset instance\<close>

text \<open>
  The attributes set by \<open>__init__\<close>; \<open>self_x\<close> is the attribute \<open>self._x\<close>.
  \<open>row_reads\<close> is a ghost field: the log of the \<open>read_row_3d\<close> calls made through this
  instance, as (plane, row) pairs.
\<close>

record 'm voxset =
  self_file_name :: string
  self_name :: string
  self_readonly :: "bool option"
  self_metadata :: "'m option"
  self_metadata_changed :: bool
  self_gxvox :: "gxvox option"
  self_cs :: "nat option"
  self_next :: int
  self_xloc :: "pyfloat list option"
  self_yloc :: "pyfloat list option"
  self_zloc :: "pyfloat list option"
  self_pg :: "gxvox option"
  self_vv :: "np_array option"
  self_buffered_plane :: "int option"
  self_buffered_row :: "int option"
  self_buffer_np :: "np_array option"
  self_dtype :: dtype
  self_is_int :: bool
  self_nx :: int
  self_ny :: int
  self_nz :: int
  self_max_iter :: int
  self_x0 :: pyfloat
  self_y0 :: pyfloat
  self_z0 :: pyfloat
  self_dx :: pyfloat
  self_dy :: pyfloat
  self_dz :: pyfloat
  self_open :: "int option"
  row_reads :: "(int \<times> int) list"

subsection \<open>Dimension and spacing properties\<close>

definition nx :: "'m voxset \<Rightarrow> int" where
  "nx v = self_nx v"

definition ny :: "'m voxset \<Rightarrow> int" where
  "ny v = self_ny v"

definition nz :: "'m voxset \<Rightarrow> int" where
  "nz v = self_nz v"

definition dx :: "'m gxenv \<Rightarrow> 'm voxset \<Rightarrow> pyfloat option" where
  "dx g v = (if float_eq (self_dx v) (rDUMMY g) then None else Some (self_dx v))"

text \<open>The source returns \<open>self._dx\<close> here.\<close>

definition dy :: "'m gxenv \<Rightarrow> 'm voxset \<Rightarrow> pyfloat option" where
  "dy g v = (if float_eq (self_dy v) (rDUMMY g) then None else Some (self_dx v))"

definition dz :: "'m gxenv \<Rightarrow> 'm voxset \<Rightarrow> pyfloat option" where
  "dz g v = (if float_eq (self_dz v) (rDUMMY g) then None else Some (self_dz v))"

text \<open>The source compares the property \<open>self.dx\<close>, not the attribute \<open>self._dx\<close>.\<close>

definition uniform_dx :: "'m gxenv \<Rightarrow> 'm voxset \<Rightarrow> bool" where
  "uniform_dx g v = ne_float (dx g v) (rDUMMY g)"

definition uniform_dy :: "'m gxenv \<Rightarrow> 'm voxset \<Rightarrow> bool" where
  "uniform_dy g v = ne_float (dy g v) (rDUMMY g)"

definition uniform_dz :: "'m gxenv \<Rightarrow> 'm voxset \<Rightarrow> bool" where
  "uniform_dz g v = ne_float (dz g v) (rDUMMY g)"

subsection \<open>Methods that change the instance\<close>

text \<open>
  A method that mutates the instance takes it and returns the outcome (the returned
  value, or the exception raised) with the instance as the method left it: an attribute
  assigned before an exception stays assigned.
\<close>

type_synonym ('m, 'a) action = "'m voxset \<Rightarrow> (error + 'a) \<times> 'm voxset"

definition ret :: "'a \<Rightarrow> ('m, 'a) action" where
  "ret a v = (Inr a, v)"

definition lift :: "error + 'a \<Rightarrow> ('m, 'a) action" where
  "lift r v = (r, v)"

definition and_then :: "('m, 'a) action \<Rightarrow> ('a \<Rightarrow> ('m, 'b) action) \<Rightarrow> ('m, 'b) action" where
  "and_then m f v = (case m v of (Inl e, v') \<Rightarrow> (Inl e, v') | (Inr a, v') \<Rightarrow> f a v')"

text \<open>
  Indexing a numpy array with a Python integer: an index in \<open>[-n, 0)\<close> counts from the
  end, an index outside \<open>[-n, n)\<close> raises \<open>IndexError\<close>.
\<close>

definition subscript :: "'a list \<Rightarrow> int \<Rightarrow> error + 'a" where
  "subscript xs i =
     (if 0 \<le> i \<and> i < int (length xs) then Inr (xs ! nat i)
      else if - int (length xs) \<le> i \<and> i < 0 then Inr (xs ! nat (int (length xs) + i))
      else Inl IndexError)"

text \<open>Indexing an attribute that may still be \<open>None\<close>.\<close>

definition subscript_attr :: "'a list option \<Rightarrow> int \<Rightarrow> error + 'a" where
  "subscript_attr a i = (case a of None \<Rightarrow> Inl TypeError | Some xs \<Rightarrow> subscript xs i)"

definition np_subscript :: "np_array option \<Rightarrow> int \<Rightarrow> error + scalar" where
  "np_subscript a i =
     (case a of
        None \<Rightarrow> Inl AttributeError
      | Some (IntArr xs) \<Rightarrow> map_sum id I (subscript xs i)
      | Some (FloatArr xs) \<Rightarrow> map_sum id F (subscript xs i))"

text \<open>\<open>self.gxvox.get_location_points\<close>: on a released handle (\<open>None\<close>) the attribute lookup fails.\<close>

definition location_arrays :: "('m, unit) action" where
  "location_arrays v =
     (case self_gxvox v of
        None \<Rightarrow> (Inl AttributeError, v)
      | Some h \<Rightarrow>
          (Inr (), v\<lparr>self_xloc := Some (fst (location_points h)),
                     self_yloc := Some (fst (snd (location_points h))),
                     self_zloc := Some (snd (snd (location_points h)))\<rparr>))"

definition x_locations :: "('m, pyfloat list option) action" where
  "x_locations v =
     (if self_xloc v = None then and_then location_arrays (\<lambda>_ v'. (Inr (self_xloc v'), v')) v
      else (Inr (self_xloc v), v))"

definition y_locations :: "('m, pyfloat list option) action" where
  "y_locations v =
     (if self_yloc v = None then and_then location_arrays (\<lambda>_ v'. (Inr (self_yloc v'), v')) v
      else (Inr (self_yloc v), v))"

definition z_locations :: "('m, pyfloat list option) action" where
  "z_locations v =
     (if self_zloc v = None then and_then location_arrays (\<lambda>_ v'. (Inr (self_zloc v'), v')) v
      else (Inr (self_zloc v), v))"

text \<open>The tuple is built left to right: x, then y, then z.\<close>

definition xyz :: "int \<Rightarrow> int \<Rightarrow> int \<Rightarrow> ('m, pyfloat \<times> pyfloat \<times> pyfloat) action" where
  "xyz ix iy iz =
     and_then x_locations (\<lambda>xs. and_then (lift (subscript_attr xs ix)) (\<lambda>x.
     and_then y_locations (\<lambda>ys. and_then (lift (subscript_attr ys iy)) (\<lambda>y.
     and_then z_locations (\<lambda>zs. and_then (lift (subscript_attr zs iz)) (\<lambda>z.
     ret (x, y, z)))))))"

text \<open>The lazy pager \<open>_pg\<close> and typed buffer \<open>_vv\<close>.\<close>

definition pg :: "('m, gxvox) action" where
  "pg v =
     (case self_pg v of
        Some p \<Rightarrow> (Inr p, v)
      | None \<Rightarrow>
          (case self_gxvox v of
             None \<Rightarrow> (Inl AttributeError, v)
           | Some h \<Rightarrow> (Inr h, v\<lparr>self_pg := Some h\<rparr>)))"

definition vv :: "('m, np_array) action" where
  "vv v =
     (case self_vv v of
        Some b \<Rightarrow> (Inr b, v)
      | None \<Rightarrow>
          (let b = (if is_float_dtype (self_dtype v) then FloatArr [] else IntArr [])
           in (Inr b, v\<lparr>self_vv := Some b\<rparr>)))"

definition np_take :: "int \<Rightarrow> np_array \<Rightarrow> np_array" where
  "np_take n a = (case a of IntArr xs \<Rightarrow> IntArr (take (nat n) xs) | FloatArr xs \<Rightarrow> FloatArr (take (nat n) xs))"

text \<open>
  \<open>pg.read_row_3d(iz, iy, 0, nx, vv)\<close>: the call is logged, and the first \<open>nx\<close> elements
  of the row at (plane, row) replace the contents of the buffer.
\<close>

definition read_row_3d :: "gxvox \<Rightarrow> int \<Rightarrow> int \<Rightarrow> int \<Rightarrow> ('m, unit) action" where
  "read_row_3d p iz iy n v =
     (let v1 = v\<lparr>row_reads := row_reads v @ [(iz, iy)]\<rparr>
      in case rows p iz iy of
           None \<Rightarrow> (Inl GXAPIError, v1)
         | Some r \<Rightarrow> (Inr (), v1\<lparr>self_vv := Some (np_take n r)\<rparr>))"

text \<open>
  Modelled from the spec: \<open>gxu.dummy_to_nan\<close> is not among the sources; the spec has
  ``convert sentinel values in the buffer to NaN for floating-point types''.
\<close>

definition dummy_to_nan :: "'m gxenv \<Rightarrow> np_array \<Rightarrow> np_array" where
  "dummy_to_nan g a =
     (case a of
        IntArr xs \<Rightarrow> IntArr xs
      | FloatArr xs \<Rightarrow> FloatArr (map (\<lambda>x. if float_eq x (rDUMMY g) then NaN else x) xs))"

text \<open>Python's \<open>int(v)\<close>: a float is truncated towards zero, NaN and the infinities raise.\<close>

fun py_int :: "scalar \<Rightarrow> error + int" where
  "py_int (I n) = Inr n"
| "py_int (F (Fin r)) = Inr (if 0 \<le> r then \<lfloor>r\<rfloor> else \<lceil>r\<rceil>)"
| "py_int (F NaN) = Inl ValueError"
| "py_int (F _) = Inl OverflowError"

fun isnan :: "scalar \<Rightarrow> bool" where
  "isnan (F NaN) = True"
| "isnan _ = False"

subsection \<open>Cell access\<close>

datatype item = Lin int | Triple int int int

text \<open>The first part of \<open>__getitem__\<close>: the index triple of the item.\<close>

definition item_index :: "item \<Rightarrow> ('m, int \<times> int \<times> int) action" where
  "item_index it v =
     (case it of
        Triple ix iy iz \<Rightarrow> (Inr (ix, iy, iz), v)
      | Lin i \<Rightarrow>
          (if nx v * ny v = 0 then (Inl ZeroDivisionError, v)
           else
             (let iz = i div (nx v * ny v);
                  i' = i - iz * nx v * ny v
              in if nx v = 0 then (Inl ZeroDivisionError, v)
                 else (Inr (i' mod nx v, i' div nx v, iz), v))))"

text \<open>The row cache: a read when the buffered (plane, row) is not the requested one.\<close>

definition fetch_row :: "'m gxenv \<Rightarrow> int \<Rightarrow> int \<Rightarrow> ('m, unit) action" where
  "fetch_row g iz iy v =
     (if self_buffered_plane v \<noteq> Some iz \<or> self_buffered_row v \<noteq> Some iy then
        and_then vv (\<lambda>_.
        and_then pg (\<lambda>p.
        and_then (read_row_3d p iz iy (self_nx v)) (\<lambda>_ v'.
          (Inr (),
           v'\<lparr>self_buffer_np :=
                 (if self_is_int v' then self_vv v'
                  else map_option (dummy_to_nan g) (self_vv v'))\<rparr>))))
          (v\<lparr>self_buffered_plane := Some iz, self_buffered_row := Some iy\<rparr>)
      else (Inr (), v))"

definition cell_value :: "'m gxenv \<Rightarrow> int \<Rightarrow> ('m, scalar option) action" where
  "cell_value g ix v =
     (case np_subscript (self_buffer_np v) ix of
        Inl e \<Rightarrow> (Inl e, v)
      | Inr x \<Rightarrow>
          (if self_is_int v then
             (case py_int x of
                Inl e \<Rightarrow> (Inl e, v)
              | Inr n \<Rightarrow> (Inr (if n = iDUMMY g then None else Some (I n)), v))
           else if isnan x then (Inr None, v)
           else (Inr (Some x), v)))"

type_synonym cell = "pyfloat \<times> pyfloat \<times> pyfloat \<times> scalar option"

definition getitem :: "'m gxenv \<Rightarrow> item \<Rightarrow> ('m, cell) action" where
  "getitem g it =
     and_then (item_index it) (\<lambda>(ix, iy, iz).
     and_then (xyz ix iy iz) (\<lambda>(x, y, z).
     and_then (fetch_row g iz iy) (\<lambda>_.
     and_then (cell_value g ix) (\<lambda>c.
     ret (x, y, z, c)))))"

subsection \<open>Sequential iteration\<close>

definition next_item :: "'m gxenv \<Rightarrow> ('m, cell) action" where
  "next_item g v =
     (if self_next v \<ge> self_max_iter v then (Inl StopIteration, v\<lparr>self_next := 0\<rparr>)
      else
        (case getitem g (Lin (self_next v)) v of
           (Inl e, v') \<Rightarrow> (Inl e, v')
         | (Inr c, v') \<Rightarrow> (Inr c, v'\<lparr>self_next := self_next v' + 1\<rparr>)))"

text \<open>
  The attributes that no cell access assigns. The loop of a \<open>for\<close> statement over the
  voxset terminates because the cursor and its bound are among them.
\<close>

definition kept :: "'m voxset \<Rightarrow> _" where
  "kept v = (self_next v, self_max_iter v, self_nx v, self_ny v, self_nz v, self_is_int v,
             self_gxvox v, self_open v, self_cs v, self_name v, self_file_name v,
             self_metadata v, self_metadata_changed v, self_readonly v,
             (self_x0 v, self_y0 v, self_z0 v), (self_dx v, self_dy v, self_dz v))"

lemma kept_and_then:
  assumes "\<And>v. kept (snd (m v)) = kept v" and "\<And>a v. kept (snd (f a v)) = kept v"
  shows "kept (snd (and_then m f v)) = kept v"
proof (cases "m v")
  case (Pair r v')
  have a: "kept v' = kept v" using assms(1)[of v] Pair by simp
  show ?thesis
  proof (cases r)
    case (Inl e)
    then show ?thesis using Pair a by (simp add: and_then_def)
  next
    case (Inr x)
    then show ?thesis using Pair a assms(2)[of x v'] by (simp add: and_then_def)
  qed
qed

lemma kept_ret: "kept (snd (ret a v)) = kept v"
  by (simp add: ret_def)

lemma kept_lift: "kept (snd (lift a v)) = kept v"
  by (simp add: lift_def)

lemma kept_location_arrays: "kept (snd (location_arrays v)) = kept v"
  by (simp add: location_arrays_def kept_def split: option.splits)

lemma kept_x_locations: "kept (snd (x_locations v)) = kept v"
  unfolding x_locations_def by (simp add: kept_and_then kept_location_arrays)

lemma kept_y_locations: "kept (snd (y_locations v)) = kept v"
  unfolding y_locations_def by (simp add: kept_and_then kept_location_arrays)

lemma kept_z_locations: "kept (snd (z_locations v)) = kept v"
  unfolding z_locations_def by (simp add: kept_and_then kept_location_arrays)

lemma kept_xyz: "kept (snd (xyz ix iy iz v)) = kept v"
  unfolding xyz_def
  by (intro kept_and_then kept_x_locations kept_y_locations kept_z_locations kept_lift kept_ret)

lemma kept_item_index: "kept (snd (item_index it v)) = kept v"
  by (simp add: item_index_def Let_def split: item.splits)

lemma kept_pg: "kept (snd (pg v)) = kept v"
  by (simp add: pg_def kept_def split: option.splits)

lemma kept_vv: "kept (snd (vv v)) = kept v"
  by (simp add: vv_def kept_def Let_def split: option.splits)

lemma kept_read_row_3d: "kept (snd (read_row_3d p iz iy n v)) = kept v"
  by (simp add: read_row_3d_def kept_def Let_def split: option.splits)

lemma kept_fetch_row: "kept (snd (fetch_row g iz iy v)) = kept v"
proof (cases "self_buffered_plane v \<noteq> Some iz \<or> self_buffered_row v \<noteq> Some iy")
  case True
  let ?v1 = "v\<lparr>self_buffered_plane := Some iz, self_buffered_row := Some iy\<rparr>"
  let ?k = "\<lambda>u v'. (Inr (), v'\<lparr>self_buffer_np :=
                 (if self_is_int v' then self_vv v'
                  else map_option (dummy_to_nan g) (self_vv v'))\<rparr>)"
  have 1: "kept ?v1 = kept v" by (simp add: kept_def)
  have 3: "\<And>u v'. kept (snd (?k u v')) = kept v'" by (simp add: kept_def)
  have 2: "kept (snd (and_then vv (\<lambda>_. and_then pg (\<lambda>p.
             and_then (read_row_3d p iz iy (self_nx v)) ?k)) ?v1)) = kept ?v1"
    by (intro kept_and_then kept_vv kept_pg kept_read_row_3d 3)
  show ?thesis using True 1 2 by (simp add: fetch_row_def)
next
  case False
  then show ?thesis by (simp add: fetch_row_def)
qed

lemma kept_cell_value: "kept (snd (cell_value g ix v)) = kept v"
  by (simp add: cell_value_def split: sum.splits)

lemma kept_getitem: "kept (snd (getitem g it v)) = kept v"
  unfolding getitem_def
  apply (rule kept_and_then)
   apply (rule kept_item_index)
  apply (simp only: split_def)
  apply (rule kept_and_then)
   apply (rule kept_xyz)
  apply (rule kept_and_then)
   apply (rule kept_fetch_row)
  apply (rule kept_and_then)
   apply (rule kept_cell_value)
  apply (rule kept_ret)
  done

lemma next_item_Inr:
  assumes "next_item g v = (Inr c, v')"
  shows "self_next v < self_max_iter v \<and> self_next v' = self_next v + 1 \<and>
         self_max_iter v' = self_max_iter v"
proof -
  have k: "kept (snd (getitem g (Lin (self_next v)) v)) = kept v" by (rule kept_getitem)
  show ?thesis using assms k
    by (auto simp: next_item_def kept_def split: if_splits prod.splits sum.splits)
qed

text \<open>
  \<open>for c in vox\<close>: \<open>__iter__\<close> returns the instance itself, and \<open>__next__\<close> is called
  until it raises. The result is the cells yielded, with the exception that ended the
  loop when that was not \<open>StopIteration\<close>.
\<close>

function iterate :: "'m gxenv \<Rightarrow> 'm voxset \<Rightarrow> (cell list \<times> error option) \<times> 'm voxset" where
  "iterate g v =
     (case next_item g v of
        (Inl e, v') \<Rightarrow> (([], if e = StopIteration then None else Some e), v')
      | (Inr c, v') \<Rightarrow> (case iterate g v' of ((cs, r), v'') \<Rightarrow> ((c # cs, r), v'')))"
  by pat_completeness auto

termination iterate
  apply (relation "measure (\<lambda>(g, v). nat (self_max_iter v - self_next v))")
   apply simp
  apply (drule sym)
  apply simp
  apply (drule next_item_Inr)
  apply simp
  done

declare iterate.simps [simp del]

subsection \<open>Opening and closing\<close>

text \<open>
  What the module touches outside the instance: the files it writes (with the log of the
  writes, in order) and the resource registry of \<open>gx\<close>.
\<close>

record world =
  files :: "string \<rightharpoonup> string"
  file_writes :: "string list"
  res_heap :: "int list"

definition voxset_file_name :: "'m gxenv \<Rightarrow> string \<Rightarrow> string" where
  "voxset_file_name g name =
     (let ext = snd (splitext g name)
      in relpath g (if lower g ext \<noteq> ''.geosoft_voxel'' then name @ ''.geosoft_voxel'' else name))"

definition voxset_name :: "'m gxenv \<Rightarrow> string \<Rightarrow> string" where
  "voxset_name g name = fst (splitext g (basename g name))"

text \<open>\<open>with open(fn, 'w+') as f: f.write(text)\<close>\<close>

definition write_file :: "string \<Rightarrow> string \<Rightarrow> world \<Rightarrow> world" where
  "write_file fn txt w = w\<lparr>files := (files w)(fn \<mapsto> txt), file_writes := file_writes w @ [fn]\<rparr>"

text \<open>
  Modelled from the spec: \<open>gx.track_resource\<close> and \<open>gx.pop_resource\<close> are not among the
  sources; the spec has ``registers the voxset as an open resource'' and ``deregisters
  the resource''. The identifier that \<open>track_resource\<close> returns is a parameter.
\<close>

definition track_resource :: "int \<Rightarrow> world \<Rightarrow> world" where
  "track_resource rid w = w\<lparr>res_heap := rid # res_heap w\<rparr>"

definition pop_resource :: "int option \<Rightarrow> world \<Rightarrow> world" where
  "pop_resource r w = (case r of None \<Rightarrow> w | Some rid \<Rightarrow> w\<lparr>res_heap := removeAll rid (res_heap w)\<rparr>)"

text \<open>\<open>__init__(name, gxvox)\<close>, with the handle that \<open>GXVOX.create\<close> returned.\<close>

definition init :: "'m gxenv \<Rightarrow> string \<Rightarrow> gxvox \<Rightarrow> int \<Rightarrow> world \<Rightarrow> 'm voxset \<times> world" where
  "init g name h rid w =
     (case simple_location h of (x0, y0, z0, sdx, sdy, sdz) \<Rightarrow>
        (\<lparr>self_file_name = voxset_file_name g name,
          self_name = voxset_name g (voxset_file_name g name),
          self_readonly = None,
          self_metadata = None,
          self_metadata_changed = False,
          self_gxvox = Some h,
          self_cs = None,
          self_next = 0,
          self_xloc = None,
          self_yloc = None,
          self_zloc = None,
          self_pg = None,
          self_vv = None,
          self_buffered_plane = None,
          self_buffered_row = None,
          self_buffer_np = None,
          self_dtype = info_dtype h,
          self_is_int = info_is_int h,
          self_nx = info_nx h,
          self_ny = info_ny h,
          self_nz = info_nz h,
          self_max_iter = info_nx h * info_ny h * info_nz h,
          self_x0 = x0,
          self_y0 = y0,
          self_z0 = z0,
          self_dx = sdx,
          self_dy = sdy,
          self_dz = sdz,
          self_open = Some rid,
          row_reads = []\<rparr>,
         track_resource rid w))"

datatype mode = MODE_READ | MODE_READWRITE | MODE_NEW

definition "open" :: "'m gxenv \<Rightarrow> string \<Rightarrow> mode option \<Rightarrow> gxvox \<Rightarrow> int \<Rightarrow> world \<Rightarrow> 'm voxset \<times> world" where
  "open g name md h rid w =
     (case init g name h rid w of (vox, w') \<Rightarrow>
        (let md' = (case md of None \<Rightarrow> MODE_READ | Some m \<Rightarrow> m)
         in (vox\<lparr>self_readonly := Some (md' = MODE_READ)\<rparr>, w')))"

text \<open>Python's truth value of \<open>self._open\<close>: \<open>None\<close> and 0 are false.\<close>

definition truthy :: "int option \<Rightarrow> bool" where
  "truthy r = (case r of None \<Rightarrow> False | Some n \<Rightarrow> n \<noteq> 0)"

definition private_close :: "'m gxenv \<Rightarrow> bool \<Rightarrow> 'm voxset \<times> world \<Rightarrow> 'm voxset \<times> world" where
  "private_close g pop vw =
     (case vw of (v, w) \<Rightarrow>
        (if truthy (self_open v) then
           (let w1 = (if self_metadata_changed v
                      then write_file (self_name v @ ''.xml'') (xml_from_dict g (self_metadata v)) w
                      else w);
                w2 = (if pop then pop_resource (self_open v) w1 else w1)
            in (v\<lparr>self_open := None, self_gxvox := None, self_cs := None,
                   self_pg := None, self_vv := None\<rparr>, w2))
         else (v, w)))"

definition close :: "'m gxenv \<Rightarrow> 'm voxset \<times> world \<Rightarrow> 'm voxset \<times> world" where
  "close g vw = private_close g True vw"

text \<open>The lazily cached coordinate system (\<open>gxvox.get_ipj\<close>).\<close>

definition coordinate_system :: "('m, nat) action" where
  "coordinate_system v =
     (case self_cs v of
        Some c \<Rightarrow> (Inr c, v)
      | None \<Rightarrow>
          (case self_gxvox v of
             None \<Rightarrow> (Inl AttributeError, v)
           | Some h \<Rightarrow> (Inr (ipj h), v\<lparr>self_cs := Some (ipj h)\<rparr>)))"

section \<open>The storage as the reference\<close>

text \<open>
  What the storage holds at a grid position, read directly: the raw value of the cell,
  its translation (the integer dummy, the float dummy and NaN are missing values) and
  the cell with its location.
\<close>

definition stored_raw :: "gxvox \<Rightarrow> int \<Rightarrow> int \<Rightarrow> int \<Rightarrow> scalar" where
  "stored_raw h ix iy iz =
     (case rows h iz iy of
        Some (IntArr xs) \<Rightarrow> I (xs ! nat ix)
      | Some (FloatArr xs) \<Rightarrow> F (xs ! nat ix)
      | None \<Rightarrow> F NaN)"

definition translated :: "'m gxenv \<Rightarrow> scalar \<Rightarrow> scalar option" where
  "translated g x =
     (case x of
        I n \<Rightarrow> if n = iDUMMY g then None else Some (I n)
      | F f \<Rightarrow> if float_eq f (rDUMMY g) \<or> f = NaN then None else Some (F f))"

definition stored_cell :: "'m gxenv \<Rightarrow> gxvox \<Rightarrow> int \<Rightarrow> int \<Rightarrow> int \<Rightarrow> cell" where
  "stored_cell g h ix iy iz =
     (fst (location_points h) ! nat ix,
      fst (snd (location_points h)) ! nat iy,
      snd (snd (location_points h)) ! nat iz,
      translated g (stored_raw h ix iy iz))"

text \<open>The cells in linear order: X fastest, then Y, then Z.\<close>

definition linear_cells :: "'m gxenv \<Rightarrow> gxvox \<Rightarrow> int \<Rightarrow> int \<Rightarrow> int \<Rightarrow> cell list" where
  "linear_cells g h n_x n_y n_z =
     concat (map (\<lambda>iz. concat (map (\<lambda>iy. map (\<lambda>ix. stored_cell g h ix iy iz)
       [0..n_x - 1]) [0..n_y - 1])) [0..n_z - 1])"

text \<open>
  The storage honours its header: each location array has the length of its axis, and
  every row of the grid can be read, has the dtype of the voxset and \<open>nx\<close> elements.
\<close>

definition row_ok :: "gxvox \<Rightarrow> bool \<Rightarrow> int \<Rightarrow> int \<Rightarrow> int \<Rightarrow> bool" where
  "row_ok h is_int n_x iz iy =
     (case rows h iz iy of
        None \<Rightarrow> False
      | Some (IntArr xs) \<Rightarrow> is_int \<and> int (length xs) = n_x
      | Some (FloatArr xs) \<Rightarrow> (is_int = False) \<and> int (length xs) = n_x)"

definition storage_ok :: "gxvox \<Rightarrow> bool \<Rightarrow> int \<Rightarrow> int \<Rightarrow> int \<Rightarrow> bool" where
  "storage_ok h is_int n_x n_y n_z =
     (int (length (fst (location_points h))) = n_x \<and>
      int (length (fst (snd (location_points h)))) = n_y \<and>
      int (length (snd (snd (location_points h)))) = n_z \<and>
      list_all (\<lambda>iz. list_all (row_ok h is_int n_x iz) [0..n_y - 1]) [0..n_z - 1])"

text \<open>What the row buffer holds after the row at (plane, row) has been fetched.\<close>

definition fetched :: "'m gxenv \<Rightarrow> gxvox \<Rightarrow> bool \<Rightarrow> int \<Rightarrow> int \<Rightarrow> int \<Rightarrow> np_array option" where
  "fetched g h is_int n_x iz iy =
     (if is_int then map_option (np_take n_x) (rows h iz iy)
      else map_option (dummy_to_nan g) (map_option (np_take n_x) (rows h iz iy)))"

text \<open>
  An open voxset that agrees with its storage: the dimensions are positive, the location
  arrays are not loaded or are the storage's, the pager is not created or is on the
  handle, and a row marked as buffered inside the grid is the row in the buffer.
\<close>

definition consistent :: "'m gxenv \<Rightarrow> 'm voxset \<Rightarrow> bool" where
  "consistent g v =
     (case self_gxvox v of
        None \<Rightarrow> False
      | Some h \<Rightarrow>
          0 < self_nx v \<and> 0 < self_ny v \<and> 0 < self_nz v \<and>
          self_max_iter v = self_nx v * self_ny v * self_nz v \<and>
          storage_ok h (self_is_int v) (self_nx v) (self_ny v) (self_nz v) \<and>
          ((self_xloc v = None \<and> self_yloc v = None \<and> self_zloc v = None) \<or>
           (self_xloc v = Some (fst (location_points h)) \<and>
            self_yloc v = Some (fst (snd (location_points h))) \<and>
            self_zloc v = Some (snd (snd (location_points h))))) \<and>
          (self_pg v = None \<or> self_pg v = Some h) \<and>
          (case (self_buffered_plane v, self_buffered_row v) of
             (Some p, Some r) \<Rightarrow>
               (if 0 \<le> p \<and> p < self_nz v \<and> 0 \<le> r \<and> r < self_ny v
                then self_buffer_np v = fetched g h (self_is_int v) (self_nx v) p r
                else True)
           | _ \<Rightarrow> True))"

text \<open>
  The instance after the location arrays have been loaded, after a row has been fetched,
  and after a cell access at (plane, row).
\<close>

definition loaded :: "gxvox \<Rightarrow> 'm voxset \<Rightarrow> 'm voxset" where
  "loaded h v = v\<lparr>self_xloc := Some (fst (location_points h)),
                   self_yloc := Some (fst (snd (location_points h))),
                   self_zloc := Some (snd (snd (location_points h)))\<rparr>"

definition missed :: "'m gxenv \<Rightarrow> gxvox \<Rightarrow> int \<Rightarrow> int \<Rightarrow> 'm voxset \<Rightarrow> 'm voxset" where
  "missed g h iz iy v =
     v\<lparr>self_buffered_plane := Some iz, self_buffered_row := Some iy,
       self_vv := map_option (np_take (self_nx v)) (rows h iz iy),
       self_pg := Some h,
       row_reads := row_reads v @ [(iz, iy)],
       self_buffer_np := fetched g h (self_is_int v) (self_nx v) iz iy\<rparr>"

definition after_access :: "'m gxenv \<Rightarrow> gxvox \<Rightarrow> int \<Rightarrow> int \<Rightarrow> 'm voxset \<Rightarrow> 'm voxset" where
  "after_access g h iz iy v =
     (if self_buffered_plane v = Some iz \<and> self_buffered_row v = Some iy then loaded h v
      else missed g h iz iy (loaded h v))"

text \<open>
  A client loop over cells, \<open>for it in items: vox[it]\<close>: it ends at the first access that
  raises. The result is the exception, if any, and the instance afterwards.
\<close>

fun access_all :: "'m gxenv \<Rightarrow> item list \<Rightarrow> 'm voxset \<Rightarrow> error option \<times> 'm voxset" where
  "access_all g [] v = (None, v)"
| "access_all g (it # its) v =
     (case getitem g it v of
        (Inl e, v') \<Rightarrow> (Some e, v')
      | (Inr c, v') \<Rightarrow> access_all g its v')"

text \<open>All cells of the row at (plane, row), \<open>ix = 0, ..., nx - 1\<close>.\<close>

definition row_items :: "int \<Rightarrow> int \<Rightarrow> int \<Rightarrow> item list" where
  "row_items n_x iy iz = map (\<lambda>ix. Triple ix iy iz) [0..n_x - 1]"

definition buffered :: "'m voxset \<Rightarrow> int \<Rightarrow> int \<Rightarrow> bool" where
  "buffered v iz iy = (self_buffered_plane v = Some iz \<and> self_buffered_row v = Some iy)"

text \<open>The cell at a linear index, decoded as \<open>__getitem__\<close> decodes it.\<close>

definition cell_at :: "'m gxenv \<Rightarrow> gxvox \<Rightarrow> int \<Rightarrow> int \<Rightarrow> int \<Rightarrow> cell" where
  "cell_at g h n_x n_y i =
     stored_cell g h ((i mod (n_x * n_y)) mod n_x) ((i mod (n_x * n_y)) div n_x) (i div (n_x * n_y))"

section \<open>Concrete inputs\<close>

text \<open>
  The GX constants: \<open>rDUMMY = -1e32\<close>, \<open>iDUMMY = -2147483647\<close>, the dummies of the
  value types (\<open>GS_S1DM\<close>, \<open>GS_U1DM\<close>, \<open>GS_S2DM\<close>, \<open>GS_U2DM\<close>, \<open>GS_S4DM\<close>, \<open>GS_U4DM\<close>,
  \<open>GS_S8DM\<close>, \<open>GS_U8DM\<close>, \<open>GS_R4DM\<close>, \<open>GS_R8DM\<close>); the path functions as they act on the
  plain name \<open>test.geosoft_voxel\<close> in the working directory.
\<close>

fun gx_dummy0 :: "dtype \<Rightarrow> scalar" where
  "gx_dummy0 Int8 = I (- 127)"
| "gx_dummy0 UInt8 = I 255"
| "gx_dummy0 Int16 = I (- 32767)"
| "gx_dummy0 UInt16 = I 65535"
| "gx_dummy0 Int32 = I (- 2147483647)"
| "gx_dummy0 UInt32 = I 4294967295"
| "gx_dummy0 Int64 = I (- 9223372036854775807)"
| "gx_dummy0 UInt64 = I 18446744073709551615"
| "gx_dummy0 Float32 = F (Fin (- (10 ^ 32)))"
| "gx_dummy0 Float64 = F (Fin (- (10 ^ 32)))"

definition gx0 :: "unit gxenv" where
  "gx0 = \<lparr>rDUMMY = Fin (- (10 ^ 32)), iDUMMY = - 2147483647,
     gx_dummy = gx_dummy0,
     xml_from_dict = (\<lambda>_. ''<metadata/>''),
     splitext = (\<lambda>p. if p = ''test.geosoft_voxel'' then (''test'', ''.geosoft_voxel'') else (p, [])),
     basename = (\<lambda>p. p), relpath = (\<lambda>p. p), lower = (\<lambda>p. p)\<rparr>"

text \<open>
  The voxset of the spec's concrete scenario: \<open>nx = 2\<close>, \<open>ny = 2\<close>, \<open>nz = 1\<close>, origin
  \<open>(0, 0, 0)\<close>, spacing \<open>(1, 1, 1)\<close>, values \<open>[[1, 2], [3, 4]]\<close>.
\<close>

definition store0 :: gxvox where
  "store0 = \<lparr>info_dtype = Float64, info_is_int = False, info_nx = 2, info_ny = 2, info_nz = 1,
     simple_location = (Fin 0, Fin 0, Fin 0, Fin 1, Fin 1, Fin 1),
     location_points = ([Fin 0, Fin 1], [Fin 0, Fin 1], [Fin 0]),
     ipj = 0,
     rows = (\<lambda>iz iy. if iz = 0 \<and> iy = 0 then Some (FloatArr [Fin 1, Fin 2])
                      else if iz = 0 \<and> iy = 1 then Some (FloatArr [Fin 3, Fin 4])
                      else None)\<rparr>"

definition world0 :: world where
  "world0 = \<lparr>files = Map.empty, file_writes = [], res_heap = []\<rparr>"

definition vox0 :: "unit voxset" where
  "vox0 = fst (open gx0 ''test'' None store0 1 world0)"

text \<open>The same storage with non-uniform X spacing, and with X spacing 1 and Y spacing 2.\<close>

definition vox_nonuniform_x :: "unit voxset" where
  "vox_nonuniform_x =
     fst (open gx0 ''test'' None
            (store0\<lparr>simple_location := (Fin 0, Fin 0, Fin 0, Fin (- (10 ^ 32)), Fin 1, Fin 1)\<rparr>)
            1 world0)"

definition vox_dy2 :: "unit voxset" where
  "vox_dy2 =
     fst (open gx0 ''test'' None
            (store0\<lparr>simple_location := (Fin 0, Fin 0, Fin 0, Fin 1, Fin 2, Fin 1)\<rparr>)
            1 world0)"

definition store_int :: gxvox where
  "store_int = \<lparr>info_dtype = Int32, info_is_int = True, info_nx = 2, info_ny = 2, info_nz = 1,
     simple_location = (Fin 0, Fin 0, Fin 0, Fin 1, Fin 1, Fin 1),
     location_points = ([Fin 0, Fin 1], [Fin 0, Fin 1], [Fin 0]),
     ipj = 0,
     rows = (\<lambda>iz iy. if iz = 0 \<and> iy = 0 then Some (IntArr [1, - 2147483647])
                      else if iz = 0 \<and> iy = 1 then Some (IntArr [3, 4])
                      else None)\<rparr>"

definition vox_int :: "unit voxset" where
  "vox_int = fst (open gx0 ''test'' None store_int 1 world0)"

text \<open>A 64-bit integer voxset whose cell \<open>(1, 0, 0)\<close> holds the dummy of its type.\<close>

definition store_int64 :: gxvox where
  "store_int64 = \<lparr>info_dtype = Int64, info_is_int = True, info_nx = 2, info_ny = 2, info_nz = 1,
     simple_location = (Fin 0, Fin 0, Fin 0, Fin 1, Fin 1, Fin 1),
     location_points = ([Fin 0, Fin 1], [Fin 0, Fin 1], [Fin 0]),
     ipj = 0,
     rows = (\<lambda>iz iy. if iz = 0 \<and> iy = 0 then Some (IntArr [1, - 9223372036854775807])
                      else if iz = 0 \<and> iy = 1 then Some (IntArr [3, 4])
                      else None)\<rparr>"

definition vox_int64 :: "unit voxset" where
  "vox_int64 = fst (open gx0 ''test'' None store_int64 1 world0)"

text \<open>The instance as \<open>_close\<close> leaves it when it was open.\<close>

definition released :: "'m voxset \<Rightarrow> 'm voxset" where
  "released v = v\<lparr>self_open := None, self_gxvox := None, self_cs := None,
                   self_pg := None, self_vv := None\<rparr>"







section \<open>Spacing properties\<close>

lemma uniform_dx_always: "uniform_dx g v"
  by (simp add: uniform_dx_def dx_def)

lemma uniform_dz_always: "uniform_dz g v"
  by (simp add: uniform_dz_def dz_def)

lemma uniform_dy_eq:
  "uniform_dy g v = (float_eq (self_dy v) (rDUMMY g) \<or> \<not> float_eq (self_dx v) (rDUMMY g))"
  by (simp add: uniform_dy_def dy_def)

lemma dx_eq: "dx g v = (if float_eq (self_dx v) (rDUMMY g) then None else Some (self_dx v))"
  by (simp add: dx_def)

lemma dz_eq: "dz g v = (if float_eq (self_dz v) (rDUMMY g) then None else Some (self_dz v))"
  by (simp add: dz_def)

text \<open>
  C1. The uniform-spacing predicates are to be false when the stored spacing is the
  sentinel. On a voxset opened on storage whose X spacing is the sentinel \<open>rDUMMY\<close>, the
  stored X spacing is the sentinel and \<open>dx\<close> is \<open>None\<close>, yet \<open>uniform_dx\<close> is true.
\<close>

theorem uniform_dx_true_on_sentinel:
  "self_dx vox_nonuniform_x = rDUMMY gx0 \<and>
   dx gx0 vox_nonuniform_x = None \<and>
   uniform_dx gx0 vox_nonuniform_x = True"
  by (simp add: vox_nonuniform_x_def open_def init_def store0_def gx0_def uniform_dx_def dx_def)

text \<open>
  C2. \<open>dy\<close> is to return the stored Y spacing. On a voxset opened on storage with X
  spacing 1 and Y spacing 2, the stored Y spacing is 2 and \<open>dy\<close> returns 1.
\<close>

theorem dy_returns_x_spacing:
  "self_dy vox_dy2 = Fin 2 \<and> dy gx0 vox_dy2 = Some (Fin 1)"
  by (simp add: vox_dy2_def open_def init_def store0_def gx0_def dy_def)

section \<open>Cell access on a consistent voxset\<close>

lemma subscript_in: "0 \<le> i \<Longrightarrow> i < int (length xs) \<Longrightarrow> subscript xs i = Inr (xs ! nat i)"
  by (simp add: subscript_def)

lemma loaded_idem:
  "self_xloc v = Some (fst (location_points h)) \<Longrightarrow>
   self_yloc v = Some (fst (snd (location_points h))) \<Longrightarrow>
   self_zloc v = Some (snd (snd (location_points h))) \<Longrightarrow> loaded h v = v"
  by (simp add: loaded_def)

lemma xyz_consistent:
  assumes c: "consistent g v" and h: "self_gxvox v = Some h"
    and ix: "0 \<le> ix" "ix < self_nx v" and iy: "0 \<le> iy" "iy < self_ny v"
    and iz: "0 \<le> iz" "iz < self_nz v"
  shows "xyz ix iy iz v =
           (Inr (fst (location_points h) ! nat ix, fst (snd (location_points h)) ! nat iy,
                 snd (snd (location_points h)) ! nat iz), loaded h v)"
proof -
  have len: "int (length (fst (location_points h))) = self_nx v"
       "int (length (fst (snd (location_points h)))) = self_ny v"
       "int (length (snd (snd (location_points h)))) = self_nz v"
    using c h by (simp_all add: consistent_def storage_ok_def)
  have sx: "subscript (fst (location_points h)) ix = Inr (fst (location_points h) ! nat ix)"
    using ix len by (simp add: subscript_in)
  have sy: "subscript (fst (snd (location_points h))) iy = Inr (fst (snd (location_points h)) ! nat iy)"
    using iy len by (simp add: subscript_in)
  have sz: "subscript (snd (snd (location_points h))) iz = Inr (snd (snd (location_points h)) ! nat iz)"
    using iz len by (simp add: subscript_in)
  consider (none) "self_xloc v = None" "self_yloc v = None" "self_zloc v = None"
    | (some) "self_xloc v = Some (fst (location_points h))"
        "self_yloc v = Some (fst (snd (location_points h)))"
        "self_zloc v = Some (snd (snd (location_points h)))"
    using c h by (auto simp add: consistent_def)
  then show ?thesis
  proof cases
    case none
    then show ?thesis using h sx sy sz
      by (simp add: xyz_def x_locations_def y_locations_def z_locations_def and_then_def
          location_arrays_def lift_def ret_def subscript_attr_def loaded_def)
  next
    case some
    then show ?thesis using h sx sy sz loaded_idem[OF some]
      by (simp add: xyz_def x_locations_def y_locations_def z_locations_def and_then_def
          lift_def ret_def subscript_attr_def)
  qed
qed

lemma row_okI:
  assumes "storage_ok h b n_x n_y n_z" "0 \<le> iz" "iz < n_z" "0 \<le> iy" "iy < n_y"
  shows "row_ok h b n_x iz iy"
  using assms by (auto simp add: storage_ok_def list_all_iff)

lemma fetch_row_miss:
  assumes h: "self_gxvox v = Some h" and pg: "self_pg v = None \<or> self_pg v = Some h"
    and r: "rows h iz iy = Some r"
    and m: "self_buffered_plane v \<noteq> Some iz \<or> self_buffered_row v \<noteq> Some iy"
  shows "fetch_row g iz iy v = (Inr (), missed g h iz iy v)"
  using h pg r m
  by (auto simp add: fetch_row_def and_then_def vv_def pg_def read_row_3d_def Let_def
      missed_def fetched_def split: option.splits)

lemma fetch_row_hit:
  assumes "self_buffered_plane v = Some iz" "self_buffered_row v = Some iy"
  shows "fetch_row g iz iy v = (Inr (), v)"
  using assms by (simp add: fetch_row_def)

lemma cell_value_fetched:
  assumes ok: "row_ok h (self_is_int u) n_x iz iy" and ix: "0 \<le> ix" "ix < n_x"
    and b: "self_buffer_np u = fetched g h (self_is_int u) n_x iz iy"
  shows "cell_value g ix u = (Inr (translated g (stored_raw h ix iy iz)), u)"
proof (cases "rows h iz iy")
  case None
  then show ?thesis using ok by (simp add: row_ok_def)
next
  case (Some a)
  show ?thesis
  proof (cases a)
    case (IntArr xs)
    then have "self_is_int u" "int (length xs) = n_x" using ok Some by (simp_all add: row_ok_def)
    then show ?thesis using Some IntArr ix b
      by (simp add: cell_value_def fetched_def np_take_def np_subscript_def subscript_def
          stored_raw_def translated_def)
  next
    case (FloatArr xs)
    then have f: "\<not> self_is_int u" "int (length xs) = n_x" using ok Some by (simp_all add: row_ok_def)
    have n: "nat ix < length xs" using ix f by simp
    have "isnan (F (if float_eq (xs ! nat ix) (rDUMMY g) then NaN else xs ! nat ix))
            = (float_eq (xs ! nat ix) (rDUMMY g) \<or> xs ! nat ix = NaN)"
      by (cases "xs ! nat ix") auto
    then show ?thesis using Some FloatArr ix b f n
      by (simp add: cell_value_def fetched_def np_take_def np_subscript_def subscript_def
          stored_raw_def translated_def dummy_to_nan_def)
  qed
qed

lemma getitem_Triple:
  assumes c: "consistent g v" and h: "self_gxvox v = Some h"
    and ix: "0 \<le> ix" "ix < self_nx v" and iy: "0 \<le> iy" "iy < self_ny v"
    and iz: "0 \<le> iz" "iz < self_nz v"
  shows "getitem g (Triple ix iy iz) v = (Inr (stored_cell g h ix iy iz), after_access g h iz iy v)"
proof -
  let ?u = "loaded h v"
  have xyz: "xyz ix iy iz v =
           (Inr (fst (location_points h) ! nat ix, fst (snd (location_points h)) ! nat iy,
                 snd (snd (location_points h)) ! nat iz), ?u)"
    by (rule xyz_consistent[OF c h ix iy iz])
  have st: "storage_ok h (self_is_int v) (self_nx v) (self_ny v) (self_nz v)"
    using c h by (simp add: consistent_def)
  have ok: "row_ok h (self_is_int v) (self_nx v) iz iy"
    by (rule row_okI[OF st iz iy])
  then obtain r where r: "rows h iz iy = Some r"
    by (auto simp add: row_ok_def split: option.splits)
  have pg: "self_pg ?u = None \<or> self_pg ?u = Some h"
    using c h by (simp add: consistent_def loaded_def)
  have hu: "self_gxvox ?u = Some h" using h by (simp add: loaded_def)
  show ?thesis
  proof (cases "self_buffered_plane v = Some iz \<and> self_buffered_row v = Some iy")
    case True
    then have hit: "self_buffered_plane ?u = Some iz" "self_buffered_row ?u = Some iy"
      by (simp_all add: loaded_def)
    have b: "self_buffer_np ?u = fetched g h (self_is_int ?u) (self_nx v) iz iy"
      using c h True iy iz by (simp add: consistent_def loaded_def)
    have ok': "row_ok h (self_is_int ?u) (self_nx v) iz iy" using ok by (simp add: loaded_def)
    have cv: "cell_value g ix ?u = (Inr (translated g (stored_raw h ix iy iz)), ?u)"
      by (rule cell_value_fetched[OF ok' ix b])
    show ?thesis using True xyz fetch_row_hit[OF hit, of g] cv
      by (simp add: getitem_def item_index_def and_then_def ret_def stored_cell_def after_access_def)
  next
    case False
    then have m: "self_buffered_plane ?u \<noteq> Some iz \<or> self_buffered_row ?u \<noteq> Some iy"
      by (simp add: loaded_def)
    let ?w = "missed g h iz iy ?u"
    have fr: "fetch_row g iz iy ?u = (Inr (), ?w)"
      by (rule fetch_row_miss[OF hu pg r m])
    have b: "self_buffer_np ?w = fetched g h (self_is_int ?w) (self_nx v) iz iy"
      by (simp add: missed_def loaded_def)
    have ok': "row_ok h (self_is_int ?w) (self_nx v) iz iy" using ok by (simp add: missed_def loaded_def)
    have cv: "cell_value g ix ?w = (Inr (translated g (stored_raw h ix iy iz)), ?w)"
      by (rule cell_value_fetched[OF ok' ix b])
    have aa: "after_access g h iz iy v = ?w" using False unfolding after_access_def by auto
    show ?thesis using xyz fr cv
      by (simp add: getitem_def item_index_def and_then_def ret_def stored_cell_def aa)
  qed
qed

lemma consistent_after_access:
  assumes c: "consistent g v" and h: "self_gxvox v = Some h"
    and iy: "0 \<le> iy" "iy < self_ny v" and iz: "0 \<le> iz" "iz < self_nz v"
  shows "consistent g (after_access g h iz iy v)"
  using c h iy iz
  by (auto simp add: consistent_def after_access_def loaded_def missed_def split: option.splits if_splits)

lemma item_index_Lin:
  assumes ix: "0 \<le> ix" "ix < nx v" and iy: "0 \<le> iy" "iy < ny v"
  shows "item_index (Lin (iz * nx v * ny v + iy * nx v + ix)) v = (Inr (ix, iy, iz), v)"
proof -
  let ?n = "nx v" and ?m = "ny v"
  have pos: "0 < ?n" "0 < ?m" using ix iy by auto
  have "iy * ?n \<le> (?m - 1) * ?n" using iy pos by (intro mult_right_mono) auto
  then have up: "iy * ?n + ix < ?n * ?m" using ix by (simp add: algebra_simps)
  have lo: "0 \<le> iy * ?n + ix" using ix iy pos by simp
  have nz: "?n * ?m \<noteq> 0" "?n \<noteq> 0" using pos by auto
  have d: "(iz * ?n * ?m + iy * ?n + ix) div (?n * ?m) = iz"
  proof -
    have e: "(iz * ?n * ?m + iy * ?n + ix) = (iy * ?n + ix) + iz * (?n * ?m)" by (simp add: algebra_simps)
    have "((iy * ?n + ix) + iz * (?n * ?m)) div (?n * ?m) = iz + (iy * ?n + ix) div (?n * ?m)"
      using nz(1) by (rule div_mult_self1)
    also have "(iy * ?n + ix) div (?n * ?m) = 0" by (rule div_pos_pos_trivial[OF lo up])
    finally have "((iy * ?n + ix) + iz * (?n * ?m)) div (?n * ?m) = iz" by simp
    then show ?thesis by (simp only: e)
  qed
  have r: "iz * ?n * ?m + iy * ?n + ix - iz * ?n * ?m = iy * ?n + ix" by simp
  have m1: "(iy * ?n + ix) mod ?n = ix" using ix by simp
  have d1: "(iy * ?n + ix) div ?n = iy" using ix pos by simp
  show ?thesis using nz d r m1 d1
    by (simp add: item_index_def Let_def)
qed

lemma vox0_eq:
  "vox0 = \<lparr>self_file_name = ''test.geosoft_voxel'',
          self_name = ''test'',
          self_readonly = Some True,
          self_metadata = None,
          self_metadata_changed = False,
          self_gxvox = Some store0,
          self_cs = None,
          self_next = 0,
          self_xloc = None,
          self_yloc = None,
          self_zloc = None,
          self_pg = None,
          self_vv = None,
          self_buffered_plane = None,
          self_buffered_row = None,
          self_buffer_np = None,
          self_dtype = Float64,
          self_is_int = False,
          self_nx = 2,
          self_ny = 2,
          self_nz = 1,
          self_max_iter = 4,
          self_x0 = Fin 0,
          self_y0 = Fin 0,
          self_z0 = Fin 0,
          self_dx = Fin 1,
          self_dy = Fin 1,
          self_dz = Fin 1,
          self_open = Some 1,
          row_reads = []\<rparr>"
  by (simp add: vox0_def open_def init_def voxset_file_name_def voxset_name_def gx0_def store0_def)

lemma storage_ok_store0: "storage_ok store0 False 2 2 1"
  by (simp add: storage_ok_def row_ok_def store0_def upto.simps)

lemma consistent_vox0: "consistent gx0 vox0"
  by (simp add: consistent_def vox0_eq storage_ok_store0)

lemma getitem_Lin_Triple:
  assumes "0 \<le> ix" "ix < nx v" "0 \<le> iy" "iy < ny v"
  shows "getitem g (Lin (iz * nx v * ny v + iy * nx v + ix)) v = getitem g (Triple ix iy iz) v"
  using item_index_Lin[OF assms, of iz]
  by (simp add: getitem_def and_then_def item_index_def)

text \<open>
  C3. For a valid triple \<open>(ix, iy, iz)\<close>, the linear index \<open>iz*nx*ny + iy*nx + ix\<close> is
  decoded to the triple again, indexing by it is indexing by the triple (the same
  outcome and the same instance afterwards), and on a voxset that agrees with its
  storage both return the cell stored at the triple, also when the one access follows
  the other.
\<close>

theorem linear_index_round_trip:
  assumes "consistent g v" and "self_gxvox v = Some h"
    and "0 \<le> ix" and "ix < nx v" and "0 \<le> iy" and "iy < ny v" and "0 \<le> iz" and "iz < nz v"
  shows "item_index (Lin (iz * nx v * ny v + iy * nx v + ix)) v = (Inr (ix, iy, iz), v) \<and>
         getitem g (Lin (iz * nx v * ny v + iy * nx v + ix)) v = getitem g (Triple ix iy iz) v \<and>
         fst (getitem g (Triple ix iy iz) v) = Inr (stored_cell g h ix iy iz) \<and>
         fst (getitem g (Lin (iz * nx v * ny v + iy * nx v + ix))
                (snd (getitem g (Triple ix iy iz) v))) = Inr (stored_cell g h ix iy iz)"
proof -
  let ?i = "iz * nx v * ny v + iy * nx v + ix"
  have b: "0 \<le> ix" "ix < self_nx v" "0 \<le> iy" "iy < self_ny v" "0 \<le> iz" "iz < self_nz v"
    using assms by (simp_all add: nx_def ny_def nz_def)
  have 1: "item_index (Lin ?i) v = (Inr (ix, iy, iz), v)"
    using assms by (intro item_index_Lin)
  have 2: "getitem g (Lin ?i) v = getitem g (Triple ix iy iz) v"
    using assms by (intro getitem_Lin_Triple)
  have 3: "getitem g (Triple ix iy iz) v = (Inr (stored_cell g h ix iy iz), after_access g h iz iy v)"
    using assms(1,2) b by (rule getitem_Triple)
  let ?v' = "after_access g h iz iy v"
  have c': "consistent g ?v'"
    using assms(1,2) b(3-6) by (rule consistent_after_access)
  have k: "kept ?v' = kept v" using kept_getitem[of g "Triple ix iy iz" v] 3 by simp
  then have d: "self_gxvox ?v' = Some h" "self_nx ?v' = self_nx v" "self_ny ?v' = self_ny v" "self_nz ?v' = self_nz v"
    using assms(2) by (simp_all add: kept_def)
  have b': "0 \<le> ix" "ix < nx ?v'" "0 \<le> iy" "iy < ny ?v'"
    using b d by (simp_all add: nx_def ny_def)
  have "getitem g (Lin (iz * nx ?v' * ny ?v' + iy * nx ?v' + ix)) ?v' = getitem g (Triple ix iy iz) ?v'"
    using b' by (rule getitem_Lin_Triple)
  moreover have "getitem g (Triple ix iy iz) ?v' = (Inr (stored_cell g h ix iy iz), after_access g h iz iy ?v')"
    using c' d(1) b d by (intro getitem_Triple) simp_all
  ultimately have 4: "fst (getitem g (Lin ?i) ?v') = Inr (stored_cell g h ix iy iz)"
    using d by (simp add: nx_def ny_def)
  show ?thesis using 1 2 3 4 by simp
qed

theorem linear_index_round_trip_witness:
  "getitem gx0 (Lin 3) vox0 = getitem gx0 (Triple 1 1 0) vox0 \<and>
   fst (getitem gx0 (Triple 1 1 0) vox0) = Inr (Fin 1, Fin 1, Fin 0, Some (F (Fin 4)))"
  using linear_index_round_trip[of gx0 vox0 store0 1 1 0] consistent_vox0
  by (simp add: vox0_eq nx_def ny_def nz_def stored_cell_def stored_raw_def translated_def store0_def gx0_def)

text \<open>
  What the code returns as the value of a valid cell, on a voxset that agrees with its
  storage: \<open>None\<close> when the raw value is \<open>iDUMMY\<close> (integer buffer) or is the float
  dummy or NaN (floating buffer), and the raw value otherwise. The comparison is with
  \<open>iDUMMY\<close> whatever the width of the integer type.
\<close>

lemma getitem_value:
  assumes "consistent g v" and "self_gxvox v = Some h"
    and "0 \<le> ix" and "ix < self_nx v" and "0 \<le> iy" and "iy < self_ny v"
    and "0 \<le> iz" and "iz < self_nz v"
  shows "(\<exists>x y z. fst (getitem g (Triple ix iy iz) v) =
            Inr (x, y, z,
                 (case stored_raw h ix iy iz of
                    I n \<Rightarrow> if n = iDUMMY g then None else Some (I n)
                  | F f \<Rightarrow> if float_eq f (rDUMMY g) \<or> f = NaN then None else Some (F f)))) \<and>
         (\<exists>n. stored_raw h ix iy iz = I n) = self_is_int v"
proof -
  have 1: "getitem g (Triple ix iy iz) v = (Inr (stored_cell g h ix iy iz), after_access g h iz iy v)"
    using assms by (rule getitem_Triple)
  have st: "storage_ok h (self_is_int v) (self_nx v) (self_ny v) (self_nz v)"
    using assms(1,2) by (simp add: consistent_def)
  have ok: "row_ok h (self_is_int v) (self_nx v) iz iy"
    using st assms(7,8,5,6) by (rule row_okI)
  have 2: "(\<exists>n. stored_raw h ix iy iz = I n) = self_is_int v"
    using ok by (auto simp add: row_ok_def stored_raw_def split: option.splits np_array.splits)
  show ?thesis using 1 2
    by (simp add: stored_cell_def translated_def)
qed

lemma vox_int_eq:
  "vox_int = \<lparr>self_file_name = ''test.geosoft_voxel'',
          self_name = ''test'',
          self_readonly = Some True,
          self_metadata = None,
          self_metadata_changed = False,
          self_gxvox = Some store_int,
          self_cs = None,
          self_next = 0,
          self_xloc = None,
          self_yloc = None,
          self_zloc = None,
          self_pg = None,
          self_vv = None,
          self_buffered_plane = None,
          self_buffered_row = None,
          self_buffer_np = None,
          self_dtype = Int32,
          self_is_int = True,
          self_nx = 2,
          self_ny = 2,
          self_nz = 1,
          self_max_iter = 4,
          self_x0 = Fin 0,
          self_y0 = Fin 0,
          self_z0 = Fin 0,
          self_dx = Fin 1,
          self_dy = Fin 1,
          self_dz = Fin 1,
          self_open = Some 1,
          row_reads = []\<rparr>"
  by (simp add: vox_int_def open_def init_def voxset_file_name_def voxset_name_def gx0_def store_int_def)

lemma storage_ok_store_int: "storage_ok store_int True 2 2 1"
  by (simp add: storage_ok_def row_ok_def store_int_def upto.simps)

lemma consistent_vox_int: "consistent gx0 vox_int"
  by (simp add: consistent_def vox_int_eq storage_ok_store_int)

lemma getitem_value_vox_int:
  "(\<exists>x y z. fst (getitem gx0 (Triple 1 0 0) vox_int) = Inr (x, y, z, None)) \<and>
   (\<exists>x y z. fst (getitem gx0 (Triple 0 0 0) vox_int) = Inr (x, y, z, Some (I 1)))"
  using getitem_value[of gx0 vox_int store_int 1 0 0]
        getitem_value[of gx0 vox_int store_int 0 0 0] consistent_vox_int
  by (simp add: vox_int_eq stored_raw_def store_int_def gx0_def)

text \<open>
  C10. A cell access, by triple or by linear index, leaves the iteration cursor as it
  was. A \<open>__next__\<close> step sets it to 0 at exhaustion, advances it by one when its cell
  access returns, and leaves it when the cell access raises.
\<close>

theorem getitem_keeps_cursor:
  "self_next (snd (getitem g it v)) = self_next v \<and>
   self_next (snd (next_item g v)) =
     (if self_max_iter v \<le> self_next v then 0
      else case fst (getitem g (Lin (self_next v)) v) of
             Inl e \<Rightarrow> self_next v
           | Inr c \<Rightarrow> self_next v + 1)"
proof -
  have k: "\<And>it. self_next (snd (getitem g it v)) = self_next v"
    using kept_getitem[of g _ v] by (simp add: kept_def)
  show ?thesis using k[of "Lin (self_next v)"] k[of it]
    by (auto simp add: next_item_def split: prod.splits sum.splits)
qed

lemma vox_int64_eq:
  "vox_int64 = \<lparr>self_file_name = ''test.geosoft_voxel'',
          self_name = ''test'',
          self_readonly = Some True,
          self_metadata = None,
          self_metadata_changed = False,
          self_gxvox = Some store_int64,
          self_cs = None,
          self_next = 0,
          self_xloc = None,
          self_yloc = None,
          self_zloc = None,
          self_pg = None,
          self_vv = None,
          self_buffered_plane = None,
          self_buffered_row = None,
          self_buffer_np = None,
          self_dtype = Int64,
          self_is_int = True,
          self_nx = 2,
          self_ny = 2,
          self_nz = 1,
          self_max_iter = 4,
          self_x0 = Fin 0,
          self_y0 = Fin 0,
          self_z0 = Fin 0,
          self_dx = Fin 1,
          self_dy = Fin 1,
          self_dz = Fin 1,
          self_open = Some 1,
          row_reads = []\<rparr>"
  by (simp add: vox_int64_def open_def init_def voxset_file_name_def voxset_name_def gx0_def
      store_int64_def)

lemma storage_ok_store_int64: "storage_ok store_int64 True 2 2 1"
  by (simp add: storage_ok_def row_ok_def store_int64_def upto.simps)

lemma consistent_vox_int64: "consistent gx0 vox_int64"
  by (simp add: consistent_def vox_int64_eq storage_ok_store_int64)

text \<open>
  C5. The value of a cell is to be \<open>None\<close> when the raw stored value is the dummy of the
  voxset's value type. On a 64-bit integer voxset whose cell \<open>(1, 0, 0)\<close> holds the dummy
  of 64-bit integers, the access returns that number: the code compares with \<open>iDUMMY\<close>,
  the dummy of 32-bit integers, whatever the width.
\<close>

theorem int64_dummy_returned_as_number:
  "self_dtype vox_int64 = Int64 \<and>
   stored_raw store_int64 1 0 0 = gx_dummy gx0 (self_dtype vox_int64) \<and>
   fst (getitem gx0 (Triple 1 0 0) vox_int64) =
     Inr (Fin 1, Fin 0, Fin 0, Some (I (- 9223372036854775807)))"
proof -
  have g: "getitem gx0 (Triple 1 0 0) vox_int64 =
             (Inr (stored_cell gx0 store_int64 1 0 0), after_access gx0 store_int64 0 0 vox_int64)"
    by (rule getitem_Triple[OF consistent_vox_int64]) (simp_all add: vox_int64_eq)
  have c: "stored_cell gx0 store_int64 1 0 0 = (Fin 1, Fin 0, Fin 0, Some (I (- 9223372036854775807)))"
    by (simp add: stored_cell_def stored_raw_def translated_def store_int64_def gx0_def)
  have d: "stored_raw store_int64 1 0 0 = gx_dummy gx0 Int64"
    by (simp add: stored_raw_def store_int64_def gx0_def)
  show ?thesis using g c d by (simp add: vox_int64_eq)
qed

lemma after_access_fields:
  "self_buffered_plane (after_access g h iz iy v) = Some iz"
  "self_buffered_row (after_access g h iz iy v) = Some iy"
  "row_reads (after_access g h iz iy v) =
     (if buffered v iz iy then row_reads v else row_reads v @ [(iz, iy)])"
  "self_gxvox (after_access g h iz iy v) = self_gxvox v"
  "self_nx (after_access g h iz iy v) = self_nx v"
  "self_ny (after_access g h iz iy v) = self_ny v"
  "self_nz (after_access g h iz iy v) = self_nz v"
  by (simp_all add: after_access_def loaded_def missed_def buffered_def)

lemma access_row:
  assumes "consistent g v" and "self_gxvox v = Some h"
    and "0 \<le> iy" and "iy < self_ny v" and "0 \<le> iz" and "iz < self_nz v"
    and "list_all (\<lambda>ix. 0 \<le> ix \<and> ix < self_nx v) ixs" and "ixs \<noteq> []"
  shows "fst (access_all g (map (\<lambda>ix. Triple ix iy iz) ixs) v) = None \<and>
         consistent g (snd (access_all g (map (\<lambda>ix. Triple ix iy iz) ixs) v)) \<and>
         kept (snd (access_all g (map (\<lambda>ix. Triple ix iy iz) ixs) v)) = kept v \<and>
         buffered (snd (access_all g (map (\<lambda>ix. Triple ix iy iz) ixs) v)) iz iy \<and>
         row_reads (snd (access_all g (map (\<lambda>ix. Triple ix iy iz) ixs) v)) =
           (if buffered v iz iy then row_reads v else row_reads v @ [(iz, iy)])"
  using assms
proof (induction ixs arbitrary: v)
  case Nil
  then show ?case by simp
next
  case (Cons ix ixs)
  let ?v1 = "after_access g h iz iy v"
  have ix: "0 \<le> ix" "ix < self_nx v" using Cons.prems(7) by simp_all
  have g1: "getitem g (Triple ix iy iz) v = (Inr (stored_cell g h ix iy iz), ?v1)"
    using Cons.prems(1,2) ix Cons.prems(3-6) by (rule getitem_Triple)
  have c1: "consistent g ?v1"
    using Cons.prems(1-6) by (rule consistent_after_access)
  have k1: "kept ?v1 = kept v"
    using kept_getitem[of g "Triple ix iy iz" v] g1 by simp
  show ?case
  proof (cases "ixs = []")
    case True
    then show ?thesis using g1 c1 k1
      by (simp add: after_access_fields buffered_def)
  next
    case False
    have rest: "list_all (\<lambda>ix. 0 \<le> ix \<and> ix < self_nx ?v1) ixs"
      using Cons.prems(7) by (simp add: after_access_fields)
    have h1: "self_gxvox ?v1 = Some h" using Cons.prems(2) by (simp add: after_access_fields)
    have b1: "iy < self_ny ?v1" "iz < self_nz ?v1"
      using Cons.prems(4,6) by (simp_all add: after_access_fields)
    note IH = Cons.IH[OF c1 h1 Cons.prems(3) b1(1) Cons.prems(5) b1(2) rest False]
    have hit: "buffered ?v1 iz iy" by (simp add: buffered_def after_access_fields)
    show ?thesis using IH g1 k1 hit
      by (simp add: after_access_fields)
  qed
qed

lemma sweep_row:
  assumes c: "consistent g v" and h: "self_gxvox v = Some h"
    and iy: "0 \<le> iy" "iy < self_ny v" and iz: "0 \<le> iz" "iz < self_nz v"
  shows "fst (access_all g (row_items (self_nx v) iy iz) v) = None \<and>
         consistent g (snd (access_all g (row_items (self_nx v) iy iz) v)) \<and>
         kept (snd (access_all g (row_items (self_nx v) iy iz) v)) = kept v \<and>
         buffered (snd (access_all g (row_items (self_nx v) iy iz) v)) iz iy \<and>
         row_reads (snd (access_all g (row_items (self_nx v) iy iz) v)) =
           (if buffered v iz iy then row_reads v else row_reads v @ [(iz, iy)])"
proof -
  have pos: "0 < self_nx v" using c h by (simp add: consistent_def)
  have 1: "list_all (\<lambda>ix. 0 \<le> ix \<and> ix < self_nx v) [0..self_nx v - 1]"
    by (simp add: list_all_iff)
  have 2: "[0..self_nx v - 1] \<noteq> []" using pos by (simp add: upto.simps)
  show ?thesis unfolding row_items_def
    using c h iy(1) iy(2) iz(1) iz(2) 1 2 by (rule access_row)
qed

text \<open>
  C6. The row cache is one slot keyed by (plane, row). On a voxset that agrees with its
  storage, a cell access (by triple or by linear index) reads a row from the storage
  exactly when the requested (plane, row) is not the buffered one, and the requested
  pair is the buffered one afterwards. Hence accessing all \<open>nx\<close> cells of a row that is
  not buffered costs one read, going on to another row costs one more, and coming back
  to the first row costs another.
\<close>

theorem row_cache_single_slot:
  assumes c: "consistent g v" and h: "self_gxvox v = Some h"
    and ix: "0 \<le> ix" "ix < self_nx v"
    and iy: "0 \<le> iy" "iy < self_ny v" and iz: "0 \<le> iz" "iz < self_nz v"
    and iy': "0 \<le> iy'" "iy' < self_ny v" and iz': "0 \<le> iz'" "iz' < self_nz v"
    and ne: "(iz', iy') \<noteq> (iz, iy)"
  shows "row_reads (snd (getitem g (Triple ix iy iz) v)) =
           (if buffered v iz iy then row_reads v else row_reads v @ [(iz, iy)]) \<and>
         row_reads (snd (getitem g (Lin (iz * nx v * ny v + iy * nx v + ix)) v)) =
           (if buffered v iz iy then row_reads v else row_reads v @ [(iz, iy)]) \<and>
         buffered (snd (getitem g (Triple ix iy iz) v)) iz iy \<and>
         row_reads (snd (access_all g (row_items (self_nx v) iy iz) v)) =
           (if buffered v iz iy then row_reads v else row_reads v @ [(iz, iy)]) \<and>
         row_reads (snd (access_all g (row_items (self_nx v) iy iz)
           (snd (access_all g (row_items (self_nx v) iy' iz')
             (snd (access_all g (row_items (self_nx v) iy iz) v)))))) =
           (if buffered v iz iy then row_reads v else row_reads v @ [(iz, iy)])
             @ [(iz', iy'), (iz, iy)]"
proof -
  have g1: "getitem g (Triple ix iy iz) v = (Inr (stored_cell g h ix iy iz), after_access g h iz iy v)"
    using c h ix iy iz by (rule getitem_Triple)
  have g2: "getitem g (Lin (iz * nx v * ny v + iy * nx v + ix)) v = getitem g (Triple ix iy iz) v"
    using ix iy by (intro getitem_Lin_Triple) (simp_all add: nx_def ny_def)
  let ?A = "snd (access_all g (row_items (self_nx v) iy iz) v)"
  have A: "consistent g ?A" "kept ?A = kept v" "buffered ?A iz iy"
    "row_reads ?A = (if buffered v iz iy then row_reads v else row_reads v @ [(iz, iy)])"
    using sweep_row[OF c h iy iz] by simp_all
  have kA: "self_gxvox ?A = Some h" "self_nx ?A = self_nx v" "self_ny ?A = self_ny v"
    "self_nz ?A = self_nz v"
    using A(2) h by (simp_all add: kept_def)
  let ?B = "snd (access_all g (row_items (self_nx v) iy' iz') ?A)"
  have nb: "\<not> buffered ?A iz' iy'" using A(3) ne by (auto simp add: buffered_def)
  have B0: "consistent g (snd (access_all g (row_items (self_nx ?A) iy' iz') ?A)) \<and>
      kept (snd (access_all g (row_items (self_nx ?A) iy' iz') ?A)) = kept ?A \<and>
      buffered (snd (access_all g (row_items (self_nx ?A) iy' iz') ?A)) iz' iy' \<and>
      row_reads (snd (access_all g (row_items (self_nx ?A) iy' iz') ?A)) =
        (if buffered ?A iz' iy' then row_reads ?A else row_reads ?A @ [(iz', iy')])"
    using sweep_row[OF A(1) kA(1), of iy' iz'] iy' iz' kA by simp
  have B: "consistent g ?B" "kept ?B = kept ?A" "buffered ?B iz' iy'"
    "row_reads ?B = row_reads ?A @ [(iz', iy')]"
    using B0 nb kA(2) by simp_all
  have kB: "self_gxvox ?B = Some h" "self_nx ?B = self_nx v" "self_ny ?B = self_ny v"
    "self_nz ?B = self_nz v"
    using B(2) kA by (simp_all add: kept_def)
  have nb': "\<not> buffered ?B iz iy" using B(3) ne by (auto simp add: buffered_def)
  have C0: "row_reads (snd (access_all g (row_items (self_nx ?B) iy iz) ?B)) =
        (if buffered ?B iz iy then row_reads ?B else row_reads ?B @ [(iz, iy)])"
    using sweep_row[OF B(1) kB(1), of iy iz] iy iz kB by simp
  have C: "row_reads (snd (access_all g (row_items (self_nx v) iy iz) ?B)) =
        row_reads ?B @ [(iz, iy)]"
    using C0 nb' kB(2) by simp
  have b: "buffered (after_access g h iz iy v) iz iy"
    by (simp add: buffered_def after_access_fields)
  show ?thesis using g1 g2 A(4) B(4) C b
    by (simp add: after_access_fields)
qed

theorem row_cache_single_slot_witness:
  "row_reads (snd (getitem gx0 (Triple 1 0 0) vox0)) = [(0, 0)] \<and>
   row_reads (snd (access_all gx0 (row_items 2 0 0) vox0)) = [(0, 0)] \<and>
   row_reads (snd (access_all gx0 (row_items 2 0 0)
     (snd (access_all gx0 (row_items 2 1 0)
       (snd (access_all gx0 (row_items 2 0 0) vox0)))))) = [(0, 0), (0, 1), (0, 0)]"
  using row_cache_single_slot[of gx0 vox0 store0 1 0 0 1 0] consistent_vox0
  by (simp add: vox0_eq buffered_def)

lemma int_div_less:
  assumes "0 < (b::int)" and "a < c * b"
  shows "a div b < c"
proof (rule ccontr)
  assume "\<not> a div b < c"
  then have "c \<le> a div b" by simp
  then have "c * b \<le> (a div b) * b" using assms(1) by (intro mult_right_mono) simp_all
  also have "\<dots> \<le> a" using pos_mod_sign[OF assms(1), of a] div_mult_mod_eq[of a b] by linarith
  finally show False using assms(2) by simp
qed

lemma flatten_rows:
  assumes "0 < (n::nat)"
  shows "concat (map (\<lambda>j. map (\<lambda>i. f i j) [0..<n]) [0..<m]) =
         map (\<lambda>k. f (k mod n) (k div n)) [0..<n * m]"
proof (induction m)
  case 0
  then show ?case by simp
next
  case (Suc m)
  let ?F = "\<lambda>k. f (k mod n) (k div n)"
  have ns: "n * Suc m = n * m + n" by simp
  have split: "[0..<n * Suc m] = [0..<n * m] @ [n * m..<n * m + n]"
    unfolding ns by (rule upt_add_eq_append[OF le0])
  have "map (\<lambda>i. i + n * m) [0..<n] = [n * m..<n + n * m]"
    by (rule map_add_upt)
  then have sh: "[n * m..<n * m + n] = map (\<lambda>i. i + n * m) [0..<n]"
    by (simp only: add.commute)
  have "map ?F (map (\<lambda>i. i + n * m) [0..<n]) = map (\<lambda>i. f i m) [0..<n]"
    using assms by (simp add: comp_def)
  then have shift: "map ?F [n * m..<n * m + n] = map (\<lambda>i. f i m) [0..<n]"
    by (simp only: sh)
  have "map ?F [0..<n * Suc m] = map ?F [0..<n * m] @ map (\<lambda>i. f i m) [0..<n]"
    by (simp only: split map_append shift)
  moreover have "concat (map (\<lambda>j. map (\<lambda>i. f i j) [0..<n]) [0..<Suc m]) =
      concat (map (\<lambda>j. map (\<lambda>i. f i j) [0..<n]) [0..<m]) @ map (\<lambda>i. f i m) [0..<n]"
    by simp
  ultimately show ?case by (simp only: Suc.IH)
qed

lemma getitem_Lin:
  assumes c: "consistent g v" and h: "self_gxvox v = Some h"
    and i: "0 \<le> i" "i < self_max_iter v"
  shows "getitem g (Lin i) v =
           (Inr (cell_at g h (self_nx v) (self_ny v) i),
            after_access g h (i div (self_nx v * self_ny v))
              ((i mod (self_nx v * self_ny v)) div self_nx v) v) \<and>
         consistent g (after_access g h (i div (self_nx v * self_ny v))
              ((i mod (self_nx v * self_ny v)) div self_nx v) v)"
proof -
  let ?n = "self_nx v" and ?m = "self_ny v"
  let ?r = "i mod (?n * ?m)"
  let ?iz = "i div (?n * ?m)" and ?ix = "?r mod ?n" and ?iy = "?r div ?n"
  have pos: "0 < ?n" "0 < ?m" "0 < self_nz v" and mx: "self_max_iter v = ?n * ?m * self_nz v"
    using c h by (simp_all add: consistent_def)
  have nm: "0 < ?n * ?m" using pos by simp
  have r: "0 \<le> ?r" "?r < ?n * ?m" using nm by simp_all
  have ix: "0 \<le> ?ix" "?ix < ?n" using pos by simp_all
  have iy: "0 \<le> ?iy" "?iy < ?m"
  proof -
    show "0 \<le> ?iy" using r(1) pos(1) by (simp add: pos_imp_zdiv_nonneg_iff)
    have "?r < ?m * ?n" using r(2) by (simp only: mult.commute)
    then show "?iy < ?m" using pos(1) by (intro int_div_less)
  qed
  have iz: "0 \<le> ?iz" "?iz < self_nz v"
  proof -
    show "0 \<le> ?iz" using i(1) nm by (simp add: pos_imp_zdiv_nonneg_iff)
    have "i < self_nz v * (?n * ?m)" using i(2) mx by (simp only: mult.commute)
    then show "?iz < self_nz v" using nm by (intro int_div_less)
  qed
  have ea: "?iz * (?n * ?m) + ?r = i" by (rule div_mult_mod_eq)
  have eb: "?iy * ?n + ?ix = ?r" by (rule div_mult_mod_eq)
  have e: "?iz * nx v * ny v + ?iy * nx v + ?ix = i"
    unfolding nx_def ny_def using ea eb by (simp only: mult.assoc add.assoc)
  have "getitem g (Lin (?iz * nx v * ny v + ?iy * nx v + ?ix)) v = getitem g (Triple ?ix ?iy ?iz) v"
    using ix iy by (intro getitem_Lin_Triple) (simp_all add: nx_def ny_def)
  then have 1: "getitem g (Lin i) v = getitem g (Triple ?ix ?iy ?iz) v"
    by (simp only: e)
  have 2: "getitem g (Triple ?ix ?iy ?iz) v = (Inr (stored_cell g h ?ix ?iy ?iz), after_access g h ?iz ?iy v)"
    using c h ix iy iz by (rule getitem_Triple)
  have 3: "consistent g (after_access g h ?iz ?iy v)"
    using c h iy iz by (rule consistent_after_access)
  show ?thesis using 1 2 3 by (simp add: cell_at_def)
qed

lemma kept_after_access: "kept (after_access g h iz iy v) = kept v"
  by (simp add: after_access_def loaded_def missed_def kept_def)

lemma consistent_next: "consistent g (v\<lparr>self_next := n\<rparr>) = consistent g v"
  by (simp add: consistent_def split: option.splits)

lemma iterate_from:
  assumes "consistent g v" and "self_gxvox v = Some h"
    and "0 \<le> self_next v" and "self_next v \<le> self_max_iter v"
  shows "fst (iterate g v) =
           (map (\<lambda>k. cell_at g h (self_nx v) (self_ny v) (int k))
              [nat (self_next v)..<nat (self_max_iter v)], None) \<and>
         consistent g (snd (iterate g v)) \<and>
         self_next (snd (iterate g v)) = 0 \<and>
         self_gxvox (snd (iterate g v)) = Some h \<and>
         self_nx (snd (iterate g v)) = self_nx v \<and>
         self_ny (snd (iterate g v)) = self_ny v \<and>
         self_nz (snd (iterate g v)) = self_nz v \<and>
         self_max_iter (snd (iterate g v)) = self_max_iter v"
  using assms
proof (induction "nat (self_max_iter v - self_next v)" arbitrary: v)
  case 0
  then have e: "self_next v = self_max_iter v" by simp
  then have ni: "next_item g v = (Inl StopIteration, v\<lparr>self_next := 0\<rparr>)"
    by (simp add: next_item_def)
  have it: "iterate g v = (([], None), v\<lparr>self_next := 0\<rparr>)"
    by (subst iterate.simps) (simp del: iterate.simps add: ni)
  show ?case unfolding it using e "0.prems"(1,2) by (simp del: iterate.simps add: consistent_next)
next
  case (Suc n)
  let ?i = "self_next v"
  have lt: "?i < self_max_iter v" using Suc.hyps(2) by simp
  let ?iz = "?i div (self_nx v * self_ny v)"
  let ?iy = "(?i mod (self_nx v * self_ny v)) div self_nx v"
  let ?c = "cell_at g h (self_nx v) (self_ny v) ?i"
  let ?v1 = "after_access g h ?iz ?iy v"
  let ?v2 = "?v1\<lparr>self_next := ?i + 1\<rparr>"
  have gl: "getitem g (Lin ?i) v = (Inr ?c, ?v1) \<and> consistent g ?v1"
    using Suc.prems(1,2,3) lt by (rule getitem_Lin)
  then have gi: "getitem g (Lin ?i) v = (Inr ?c, ?v1)" and c1: "consistent g ?v1"
    by simp_all
  have k1: "kept ?v1 = kept v" by (rule kept_after_access)
  then have f1: "self_next ?v1 = ?i" "self_max_iter ?v1 = self_max_iter v"
    "self_gxvox ?v1 = Some h" "self_nx ?v1 = self_nx v" "self_ny ?v1 = self_ny v"
    "self_nz ?v1 = self_nz v"
    using Suc.prems(2) by (simp_all add: kept_def)
  have ni: "next_item g v = (Inr ?c, ?v2)"
    using lt gi f1(1) by (simp add: next_item_def)
  have c2: "consistent g ?v2" using c1 by (simp only: consistent_next)
  have f2: "self_gxvox ?v2 = Some h" "0 \<le> self_next ?v2" "self_next ?v2 \<le> self_max_iter ?v2"
    "n = nat (self_max_iter ?v2 - self_next ?v2)"
    "self_nx ?v2 = self_nx v" "self_ny ?v2 = self_ny v" "self_nz ?v2 = self_nz v"
    "self_max_iter ?v2 = self_max_iter v" "self_next ?v2 = ?i + 1"
    using f1 Suc.prems(3) lt Suc.hyps(2) by simp_all
  note IH = Suc.hyps(1)[OF f2(4) c2 f2(1) f2(2) f2(3)]
  have it: "iterate g v = (case iterate g ?v2 of ((cs, r), v'') \<Rightarrow> ((?c # cs, r), v''))"
    by (subst iterate.simps) (simp del: iterate.simps add: ni)
  have "nat ?i < nat (self_max_iter v)" using lt Suc.prems(3) by simp
  then have "[nat ?i..<nat (self_max_iter v)] = nat ?i # [Suc (nat ?i)..<nat (self_max_iter v)]"
    by (rule upt_conv_Cons)
  moreover have "Suc (nat ?i) = nat (?i + 1)" using Suc.prems(3) by simp
  ultimately have l: "[nat ?i..<nat (self_max_iter v)] = nat ?i # [nat (?i + 1)..<nat (self_max_iter v)]"
    by simp
  have ci: "cell_at g h (self_nx v) (self_ny v) (int (nat ?i)) = ?c"
    using Suc.prems(3) by simp
  have it': "fst (iterate g v) = (?c # fst (fst (iterate g ?v2)), snd (fst (iterate g ?v2)))"
    "snd (iterate g v) = snd (iterate g ?v2)"
    by (simp_all only: it split_def fst_conv snd_conv)
  show ?case
    using IH Suc.prems(3) unfolding it' l
    by (simp del: iterate.simps add: f1)
qed

lemma upto_as_upt: "[0..n - 1] = map int [0..<nat n]"
  by (rule nth_equalityI) (simp_all add: nth_upto)

lemma linear_cells_flat:
  assumes "0 < n_x" and "0 < n_y" and "0 < n_z"
  shows "linear_cells g h n_x n_y n_z =
           map (\<lambda>k. cell_at g h n_x n_y (int k)) [0..<nat (n_x * n_y * n_z)]"
proof -
  let ?X = "nat n_x" and ?Y = "nat n_y" and ?Z = "nat n_z"
  let ?C = "\<lambda>ix iy iz. stored_cell g h (int ix) (int iy) (int iz)"
  have 1: "linear_cells g h n_x n_y n_z =
      concat (map (\<lambda>iz. concat (map (\<lambda>iy. map (\<lambda>ix. ?C ix iy iz) [0..<?X]) [0..<?Y])) [0..<?Z])"
    by (simp add: linear_cells_def upto_as_upt comp_def)
  have X: "0 < ?X" and XY: "0 < ?X * ?Y" using assms by simp_all
  have 2: "\<And>iz. concat (map (\<lambda>iy. map (\<lambda>ix. ?C ix iy iz) [0..<?X]) [0..<?Y]) =
      map (\<lambda>k. ?C (k mod ?X) (k div ?X) iz) [0..<?X * ?Y]"
    using X by (rule flatten_rows)
  have 3: "concat (map (\<lambda>iz. map (\<lambda>k. ?C (k mod ?X) (k div ?X) iz) [0..<?X * ?Y]) [0..<?Z]) =
      map (\<lambda>K. ?C ((K mod (?X * ?Y)) mod ?X) ((K mod (?X * ?Y)) div ?X) (K div (?X * ?Y)))
        [0..<?X * ?Y * ?Z]"
    using XY by (rule flatten_rows)
  have 4: "nat (n_x * n_y * n_z) = ?X * ?Y * ?Z"
    using assms by (simp add: nat_mult_distrib)
  have 5: "\<And>K. ?C ((K mod (?X * ?Y)) mod ?X) ((K mod (?X * ?Y)) div ?X) (K div (?X * ?Y)) =
      cell_at g h n_x n_y (int K)"
    using assms by (simp add: cell_at_def zmod_int zdiv_int)
  show ?thesis by (simp only: 1 2 3 4 5)
qed

lemma length_linear_cells:
  assumes "0 < n_x" and "0 < n_y" and "0 < n_z"
  shows "length (linear_cells g h n_x n_y n_z) = nat (n_x * n_y * n_z)"
  using linear_cells_flat[OF assms, of g h] by simp

text \<open>
  C4. Iterating a voxset that agrees with its storage, from cursor 0, yields the cells in
  linear order (X fastest, then Y, then Z) and ends by exhaustion; these are exactly
  \<open>nx * ny * nz\<close> cells; the cursor is 0 again afterwards, and iterating the same instance
  a second time yields the same cells in the same order.
\<close>

theorem iteration_complete_and_restartable:
  assumes "consistent g v" and "self_gxvox v = Some h" and "self_next v = 0"
  shows "fst (iterate g v) = (linear_cells g h (self_nx v) (self_ny v) (self_nz v), None) \<and>
         length (linear_cells g h (self_nx v) (self_ny v) (self_nz v)) =
           nat (self_nx v * self_ny v * self_nz v) \<and>
         self_next (snd (iterate g v)) = 0 \<and>
         fst (iterate g (snd (iterate g v))) =
           (linear_cells g h (self_nx v) (self_ny v) (self_nz v), None)"
proof -
  have pos: "0 < self_nx v" "0 < self_ny v" "0 < self_nz v"
    and mx: "self_max_iter v = self_nx v * self_ny v * self_nz v"
    using assms(1,2) by (simp_all add: consistent_def)
  have N: "0 \<le> self_max_iter v" using pos mx by simp
  have b: "0 \<le> self_next v" "self_next v \<le> self_max_iter v" using assms(3) N by simp_all
  note 1 = iterate_from[OF assms(1,2) b]
  let ?v' = "snd (iterate g v)"
  have c': "consistent g ?v'" and h': "self_gxvox ?v' = Some h" and n': "self_next ?v' = 0"
    and d': "self_nx ?v' = self_nx v" "self_ny ?v' = self_ny v" "self_nz ?v' = self_nz v"
      "self_max_iter ?v' = self_max_iter v"
    using 1 by simp_all
  have b': "0 \<le> self_next ?v'" "self_next ?v' \<le> self_max_iter ?v'" using n' d' N by simp_all
  note 2 = iterate_from[OF c' h' b']
  have flat: "linear_cells g h (self_nx v) (self_ny v) (self_nz v) =
      map (\<lambda>k. cell_at g h (self_nx v) (self_ny v) (int k)) [0..<nat (self_max_iter v)]"
    using linear_cells_flat[OF pos, of g h] mx by simp
  have len: "length (linear_cells g h (self_nx v) (self_ny v) (self_nz v)) =
           nat (self_nx v * self_ny v * self_nz v)"
    using pos by (rule length_linear_cells)
  show ?thesis using 1 2 flat len assms(3) n' d' by simp
qed

theorem iteration_complete_and_restartable_witness:
  "fst (iterate gx0 vox0) =
     ([(Fin 0, Fin 0, Fin 0, Some (F (Fin 1))), (Fin 1, Fin 0, Fin 0, Some (F (Fin 2))),
       (Fin 0, Fin 1, Fin 0, Some (F (Fin 3))), (Fin 1, Fin 1, Fin 0, Some (F (Fin 4)))], None) \<and>
   fst (iterate gx0 (snd (iterate gx0 vox0))) =
     ([(Fin 0, Fin 0, Fin 0, Some (F (Fin 1))), (Fin 1, Fin 0, Fin 0, Some (F (Fin 2))),
       (Fin 0, Fin 1, Fin 0, Some (F (Fin 3))), (Fin 1, Fin 1, Fin 0, Some (F (Fin 4)))], None)"
proof -
  have l: "linear_cells gx0 store0 2 2 1 =
     [(Fin 0, Fin 0, Fin 0, Some (F (Fin 1))), (Fin 1, Fin 0, Fin 0, Some (F (Fin 2))),
       (Fin 0, Fin 1, Fin 0, Some (F (Fin 3))), (Fin 1, Fin 1, Fin 0, Some (F (Fin 4)))]"
    by (simp add: linear_cells_def upto.simps stored_cell_def stored_raw_def translated_def
        store0_def gx0_def)
  show ?thesis
    using iteration_complete_and_restartable[of gx0 vox0 store0] consistent_vox0 l
    by (simp add: vox0_eq)
qed







lemma and_then_Inl: "fst (m v) = Inl e \<Longrightarrow> fst (and_then m f v) = Inl e"
  by (cases "m v") (auto simp add: and_then_def)

lemma and_then_Inr: "m v = (Inr a, v') \<Longrightarrow> and_then m f v = f a v'"
  by (simp add: and_then_def)






















lemma nv_coordinate_system: "fst (coordinate_system v) \<noteq> Inl VoxsetException"
  by (simp add: coordinate_system_def split: option.splits)







lemma close_idempotent: "close g (close g vw) = close g vw"
  by (cases vw) (simp add: close_def private_close_def truthy_def Let_def)

lemma close_closed: "\<not> truthy (self_open v) \<Longrightarrow> close g (v, w) = (v, w)"
  by (simp add: close_def private_close_def)

lemma close_writes:
  assumes "truthy (self_open v)"
  shows "file_writes (snd (close g (v, w))) =
           (if self_metadata_changed v then file_writes w @ [self_name v @ ''.xml'']
            else file_writes w) \<and>
         files (snd (close g (v, w))) =
           (if self_metadata_changed v
            then (files w)(self_name v @ ''.xml'' \<mapsto> xml_from_dict g (self_metadata v))
            else files w) \<and>
         fst (close g (v, w)) = released v"
  using assms
  by (simp add: close_def private_close_def Let_def write_file_def pop_resource_def released_def
      split: option.splits)


text \<open>
  \<open>open\<close> on a storage that honours its header, with positive dimensions, gives a voxset
  that agrees with the storage, with the cursor at 0 and the handle in place.
\<close>

lemma open_consistent:
  assumes "0 < info_nx h" and "0 < info_ny h" and "0 < info_nz h"
    and "storage_ok h (info_is_int h) (info_nx h) (info_ny h) (info_nz h)"
  shows "consistent g (fst (open g name md h rid w)) \<and>
         self_gxvox (fst (open g name md h rid w)) = Some h \<and>
         self_next (fst (open g name md h rid w)) = 0"
  using assms
  by (simp add: open_def init_def consistent_def Let_def split: prod.splits)

end
